theory Spec2Isabelle
  imports Main "HOL-Library.AList" "HOL-Library.Sublist"
begin

section \<open>The subprocess.exec command of the agent (command/exec.go)\<close>

text \<open>
  The command is decoded into a struct, normalised by \<open>ParseParams\<close>, and run by
  \<open>Execute\<close>: expansion of the templated fields, composition of the environment,
  construction of the jasper command, the run itself, and the final check of the caller's
  context. Go mutates the receiver in place; the model passes the struct along and returns
  the updated one. Go's \<open>error\<close> values are modelled by the datatype \<open>error\<close>, whose
  constructors are the classes of failure and whose arguments are the messages of the source.
\<close>

subsection \<open>Data\<close>

text \<open>
  Maps from strings to strings (\<open>Env\<close>, the expansions) are association lists read with
  \<open>map_of\<close> and written with \<open>AList.update\<close>. A nil map and an empty one are both
  \<open>[]\<close>: \<open>ParseParams\<close> replaces a nil \<open>Env\<close> by an empty map before anything is written.
\<close>

type_synonym strmap = "(string \<times> string) list"

record subprocessExec =
  Binary :: string
  Args :: "string list"
  Env :: strmap
  Command :: string
  Path :: "string list"
  AddExpansionsToEnv :: bool
  IncludeExpansionsInEnv :: "string list"
  Background :: bool
  Silent :: bool
  SystemLog :: bool
  WorkingDir :: string
  IgnoreStandardOutput :: bool
  IgnoreStandardError :: bool
  RedirectStandardErrorToOutput :: bool
  ContinueOnError :: bool
  KeepEmptyArgs :: bool

text \<open>What \<open>cmd.Run\<close> can report: the process could not be started, or it ran and failed.\<close>

datatype run_failure = LaunchFailed string | ExitFailed string

datatype error =
    ConfigurationConflict string
  | ExpansionError "string list"
  | WorkingDirError string
  | LaunchError string
  | ProcessFailure string
  | Aborted string
  | Panic string

fun run_error :: "run_failure \<Rightarrow> error" where
  "run_error (LaunchFailed m) = LaunchError m"
| "run_error (ExitFailed m) = ProcessFailure m"

definition Name :: string where
  "Name = ''subprocess.exec''"

subsection \<open>Logging and the process constructor\<close>

datatype sink = Execution | System | Task

datatype level = LDebug | LInfo | LNotice | LWarning | LError

datatype field_value = S string | B bool

text \<open>
  The events of the model are the calls made to a logger, with the message passed: whether
  a sink emits a message that wraps a nil error is the sink's business.
\<close>

datatype message =
    Text string
  | Formatted string nat
  | Fields "(string \<times> field_value) list"
  | WrapError "run_failure option" "(string \<times> field_value) list"
  | CollectAllProcesses
  | ErrorValue "error option"

text \<open>
  What the process constructor does besides returning: the private context of a background
  process and its cancel function, the completion trigger, the process registry and the logs.
\<close>

datatype proc_event =
    PrivateContextCreated
  | PrivateContextCancelled
  | RegisterTrigger
  | GripWarning "string option" string
  | TrackProcess string nat
  | ProcLogged sink level message

text \<open>A process as \<open>CreateProcess\<close> returns it: its PID and what \<open>RegisterTrigger\<close>
  will answer.\<close>

record process =
  PID :: nat
  registerTriggerErr :: "string option"

record jasperCommand =
  cmdArgs :: "string list"
  cmdBackground :: bool
  cmdEnvironment :: strmap
  cmdDirectory :: string
  cmdSuppressStandardError :: bool
  cmdSuppressStandardOutput :: bool
  cmdRedirectErrorToOutput :: bool
  cmdProcConstructor :: "string + process \<Rightarrow> (error + process) \<times> proc_event list"
  cmdOutputSender :: "(level \<times> sink) option"
  cmdErrorSender :: "(level \<times> sink) option"

datatype event =
    Logged sink level message
  | Ran jasperCommand

subsection \<open>Collaborators\<close>

text \<open>
  Everything \<open>exec.go\<close> calls and does not define is a field of this record: the expansion
  engine (\<open>ExpandString\<close> returns a string and an error, \<open>Map\<close> the whole mapping),
  \<open>shlex.Split\<close> (tokens and an error), the agent's own PATH and PID, the platform's
  path-list separator, \<open>filepath.Join\<close> and \<open>filepath.IsAbs\<close>, the two marker names of
  package util, the task configuration (\<open>WorkDir\<close>, \<open>GetWorkingDirectory\<close>, the task id),
  jasper's \<open>Run\<close> and the state of the caller's context when \<open>Run\<close> has returned.
\<close>

record deps =
  expandString :: "string \<Rightarrow> string \<times> string option"
  expansionsMap :: strmap
  shlexSplit :: "string \<Rightarrow> string list \<times> string option"
  getenvPATH :: string
  listSeparator :: string
  itoaGetpid :: string
  MarkerTaskID :: string
  MarkerAgentPID :: string
  filepathJoin :: "string \<Rightarrow> string \<Rightarrow> string"
  filepathIsAbs :: "string \<Rightarrow> bool"
  confWorkDir :: string
  getWorkingDirectory :: "string \<Rightarrow> string \<times> string option"
  taskId :: string
  cmdRun :: "jasperCommand \<Rightarrow> run_failure option"
  ctxErr :: bool

subsection \<open>ParseParams and splitCommands\<close>

definition splitCommands :: "deps \<Rightarrow> subprocessExec \<Rightarrow> error + subprocessExec" where
  "splitCommands D c =
     (if Command c \<noteq> [] then
        if Binary c \<noteq> [] \<or> length (Args c) > 0 then
          Inl (ConfigurationConflict
            ''must specify command as either arguments or a command string but not both'')
        else
          (case shlexSplit D (Command c) of
             (args, Some e) \<Rightarrow>
               Inl (ConfigurationConflict (''problem parsing '' @ Name @ '' command: '' @ e))
           | (args, None) \<Rightarrow>
               (case args of
                  [] \<Rightarrow> Inl (ConfigurationConflict (''no arguments for command '' @ Name))
                | b # rest \<Rightarrow>
                    Inr (c\<lparr>Binary := b,
                           Args := (if length args > 1 then rest else Args c)\<rparr>)))
      else Inr c)"

text \<open>The struct is the decoded one: a failure of \<open>mapstructure.Decode\<close> is outside.\<close>

definition ParseParams :: "deps \<Rightarrow> subprocessExec \<Rightarrow> error + subprocessExec" where
  "ParseParams D c =
     (case splitCommands D c of
        Inl e \<Rightarrow> Inl e
      | Inr c1 \<Rightarrow>
          (let c2 = (if Silent c1
                     then c1\<lparr>IgnoreStandardError := True, IgnoreStandardOutput := True\<rparr>
                     else c1)
           in if IgnoreStandardOutput c2 \<and> RedirectStandardErrorToOutput c2 then
                Inl (ConfigurationConflict
                  ''cannot ignore standard out, and redirect standard error to it'')
              else Inr c2))"

subsection \<open>doExpansions\<close>

text \<open>\<open>catcher.Add\<close>: a nil error adds nothing.\<close>

fun catcherAdd :: "string list \<Rightarrow> string option \<Rightarrow> string list" where
  "catcherAdd errs None = errs"
| "catcherAdd errs (Some e) = errs @ [e]"

text \<open>The loop over \<open>c.Args\<close>: the new arguments and the catcher, both accumulated.\<close>

fun expandArgs :: "deps \<Rightarrow> string list \<Rightarrow> string list \<Rightarrow> string list
    \<Rightarrow> string list \<times> string list" where
  "expandArgs D [] newArgs errs = (newArgs, errs)"
| "expandArgs D (a # as) newArgs errs =
     (case expandString D a of (arg, err) \<Rightarrow>
        if arg = [] then expandArgs D as (newArgs @ [arg]) (catcherAdd errs err)
        else (case shlexSplit D arg of (splitArgs, err2) \<Rightarrow>
                expandArgs D as (newArgs @ splitArgs) (catcherAdd (catcherAdd errs err) err2)))"

text \<open>The loop over \<open>c.Env\<close>: every value is replaced by its expansion.\<close>

fun expandEnv :: "deps \<Rightarrow> strmap \<Rightarrow> strmap \<Rightarrow> string list \<Rightarrow> strmap \<times> string list" where
  "expandEnv D [] done errs = (done, errs)"
| "expandEnv D ((k, v) # kvs) done errs =
     (case expandString D v of (v', err) \<Rightarrow>
        expandEnv D kvs (done @ [(k, v')]) (catcherAdd errs err))"

text \<open>The loop over \<open>c.Path\<close>.\<close>

fun expandPath :: "deps \<Rightarrow> string list \<Rightarrow> string list \<Rightarrow> string list
    \<Rightarrow> string list \<times> string list" where
  "expandPath D [] path errs = (path, errs)"
| "expandPath D (p # ps) path errs =
     (case expandString D p of (p', err) \<Rightarrow>
        expandPath D ps (path @ [p']) (catcherAdd errs err))"

text \<open>\<open>strings.Join\<close>.\<close>

fun stringsJoin :: "string list \<Rightarrow> string \<Rightarrow> string" where
  "stringsJoin [] sep = []"
| "stringsJoin [x] sep = x"
| "stringsJoin (x # y # ys) sep = x @ sep @ stringsJoin (y # ys) sep"

text \<open>\<open>for k, v := range expansions { c.Env[k] = v }\<close>.\<close>

fun addExpansions :: "strmap \<Rightarrow> strmap \<Rightarrow> strmap" where
  "addExpansions [] env = env"
| "addExpansions ((k, v) # kvs) env = addExpansions kvs (AList.update k v env)"

text \<open>The loop over \<open>c.IncludeExpansionsInEnv\<close>.\<close>

fun includeExpansions :: "strmap \<Rightarrow> string list \<Rightarrow> strmap \<Rightarrow> strmap" where
  "includeExpansions expansions [] env = env"
| "includeExpansions expansions (ei # eis) env =
     (case map_of expansions ei of
        Some val \<Rightarrow> includeExpansions expansions eis (AList.update ei val env)
      | None \<Rightarrow> includeExpansions expansions eis env)"

text \<open>
  \<open>doExpansions\<close> returns the struct as the in-place updates leave it, and the error:
  nil when the catcher is empty, else the aggregate of everything it caught.
\<close>

definition doExpansions :: "deps \<Rightarrow> subprocessExec \<Rightarrow> subprocessExec \<times> error option" where
  "doExpansions D c =
     (case expandString D (WorkingDir c) of (wd, e1) \<Rightarrow>
      case expandString D (Binary c) of (bin, e2) \<Rightarrow>
      case expandString D (Command c) of (cmd, e3) \<Rightarrow>
      case expandArgs D (Args c) [] (catcherAdd (catcherAdd (catcherAdd [] e1) e2) e3)
        of (newArgs, errs1) \<Rightarrow>
      case expandEnv D (Env c) [] errs1 of (env1, errs2) \<Rightarrow>
      case (if length (Path c) > 0 then
              (case expandPath D (Path c) [] errs2 of (path, errs) \<Rightarrow>
                 (AList.update ''PATH''
                    (stringsJoin (path @ [getenvPATH D]) (listSeparator D)) env1, errs))
            else (env1, errs2)) of (env2, errs3) \<Rightarrow>
      let expansions = expansionsMap D;
          env3 = (if AddExpansionsToEnv c then addExpansions expansions env2 else env2);
          env4 = includeExpansions expansions (IncludeExpansionsInEnv c) env3
      in (c\<lparr>WorkingDir := wd, Binary := bin, Command := cmd, Args := newArgs, Env := env4\<rparr>,
          if errs3 = [] then None else Some (ExpansionError errs3)))"

subsection \<open>getProc\<close>

text \<open>
  The closure handed to \<open>ProcConstructor\<close>. It captures \<open>c.Background\<close> and the task id;
  its argument here is what \<open>CreateProcess\<close> answers, an error or a process. The cancel
  function is non-nil exactly for a background command.
\<close>

definition procConstructor :: "bool \<Rightarrow> string \<Rightarrow> string + process
    \<Rightarrow> (error + process) \<times> proc_event list" where
  "procConstructor background taskID created =
     (let ev0 = (if background then [PrivateContextCreated] else [])
      in case created of
           Inl err \<Rightarrow>
             (Inl (LaunchError err),
              ev0 @ (if background then [PrivateContextCancelled] else []))
         | Inr proc \<Rightarrow>
             (Inr proc,
              ev0
              @ (if background then
                   [RegisterTrigger,
                    GripWarning (registerTriggerErr proc)
                      ''problem registering cancellation for process'']
                 else [])
              @ [TrackProcess taskID (PID proc)]
              @ (if background then
                   [ProcLogged Execution LDebug
                      (Formatted ''running command in the background [pid=%d]'' (PID proc))]
                 else
                   [ProcLogged Execution LInfo
                      (Formatted (''started process with pid '' @ [CHR 0x27] @ ''%d''
                                  @ [CHR 0x27]) (PID proc))])))"

definition getProc :: "deps \<Rightarrow> string \<Rightarrow> subprocessExec \<Rightarrow> subprocessExec \<times> jasperCommand" where
  "getProc D taskID c =
     (let env1 = AList.update (MarkerTaskID D) taskID (Env c);
          env2 = AList.update (MarkerAgentPID D) (itoaGetpid D) env1;
          env3 = (if map_of env2 ''GOCACHE'' = None
                  then AList.update ''GOCACHE'' (filepathJoin D (WorkingDir c) ''.gocache'') env2
                  else env2);
          env4 = (if map_of env3 ''CI'' = None
                  then AList.update ''CI'' ''true'' env3
                  else env3);
          c' = c\<lparr>Env := env4\<rparr>
      in (c',
          \<lparr>cmdArgs = [Binary c'] @ Args c',
           cmdBackground = Background c',
           cmdEnvironment = Env c',
           cmdDirectory = WorkingDir c',
           cmdSuppressStandardError = IgnoreStandardError c',
           cmdSuppressStandardOutput = IgnoreStandardOutput c',
           cmdRedirectErrorToOutput = RedirectStandardErrorToOutput c',
           cmdProcConstructor = procConstructor (Background c') taskID,
           cmdOutputSender =
             (if \<not> IgnoreStandardOutput c'
              then Some (LInfo, if SystemLog c' then System else Task) else None),
           cmdErrorSender =
             (if \<not> IgnoreStandardError c'
              then Some (LError, if SystemLog c' then System else Task) else None)\<rparr>))"

subsection \<open>addTempDirs and the removal of empty arguments\<close>

fun addTempDirsKeys :: "string list \<Rightarrow> strmap \<Rightarrow> string \<Rightarrow> strmap" where
  "addTempDirsKeys [] env dir = env"
| "addTempDirsKeys (key # keys) env dir =
     (if map_of env key \<noteq> None then addTempDirsKeys keys env dir
      else addTempDirsKeys keys (AList.update key dir env) dir)"

definition addTempDirs :: "strmap \<Rightarrow> string \<Rightarrow> strmap" where
  "addTempDirs env dir = addTempDirsKeys [''TMP'', ''TMPDIR'', ''TEMP''] env dir"

text \<open>
  \<open>for i := len(c.Args) - 1; i >= 0; i-- { ... }\<close>: the first argument of \<open>stripLoop\<close> is
  \<open>i + 1\<close>. Reading \<open>c.Args[i]\<close> out of range panics in Go; that is \<open>None\<close> here.
\<close>

fun stripLoop :: "nat \<Rightarrow> string list \<Rightarrow> string list option" where
  "stripLoop 0 args = Some args"
| "stripLoop (Suc i) args =
     (if i < length args then
        (if args ! i = [] then stripLoop i (take i args @ drop (i + 1) args)
         else stripLoop i args)
      else None)"

definition stripEmptyArgs :: "subprocessExec \<Rightarrow> subprocessExec option" where
  "stripEmptyArgs c =
     (if \<not> KeepEmptyArgs c then
        (case stripLoop (length (Args c)) (Args c) of
           None \<Rightarrow> None
         | Some args \<Rightarrow> Some (c\<lparr>Args := args\<rparr>))
      else Some c)"

subsection \<open>runCommand and Execute\<close>

definition runCommand :: "deps \<Rightarrow> string \<Rightarrow> jasperCommand \<Rightarrow> subprocessExec
    \<Rightarrow> run_failure option \<times> event list" where
  "runCommand D taskID cmd c =
     (let t0 = (if Silent c
                then [Logged Execution LInfo (Text ''executing command in silent mode'')]
                else []);
          err = cmdRun D cmd
      in if ContinueOnError c then
           (None,
            t0 @ [Ran cmd,
                  Logged Execution LNotice
                    (WrapError err
                       [(''task'', S taskID), (''binary'', S (Binary c)),
                        (''background'', B (Background c)), (''silent'', B (Silent c)),
                        (''continue'', B (ContinueOnError c))])])
         else (err, t0 @ [Ran cmd]))"

record execution =
  result :: "error option"
  spec :: subprocessExec
  trace :: "event list"

text \<open>The part of \<open>Execute\<close> from the debug message to the end (lines 306 to 322).\<close>

definition executeRun :: "deps \<Rightarrow> subprocessExec \<Rightarrow> event list \<Rightarrow> execution" where
  "executeRun D c t =
     (let t1 = t @ [Logged Execution LDebug
                      (Fields [(''working_directory'', S (WorkingDir c)),
                               (''background'', B (Background c)),
                               (''binary'', S (Binary c))])]
      in case getProc D (taskId D) c of (c', cmd) \<Rightarrow>
         case runCommand D (taskId D) cmd c' of (rerr, t2) \<Rightarrow>
         let err = map_option run_error rerr
         in if ctxErr D then
              \<lparr>result = Some (Aborted (Name @ '' aborted'')),
               spec = c',
               trace = t1 @ t2 @
                 [Logged System LDebug (Text ''dumping running processes''),
                  Logged System LDebug CollectAllProcesses,
                  Logged Execution LNotice (ErrorValue err)]\<rparr>
            else \<lparr>result = err, spec = c', trace = t1 @ t2\<rparr>)"

definition Execute :: "deps \<Rightarrow> subprocessExec \<Rightarrow> execution" where
  "Execute D c =
     (case doExpansions D c of
        (c1, Some e) \<Rightarrow>
          \<lparr>result = Some e, spec = c1,
           trace = [Logged Execution LError (Text ''problem expanding command values'')]\<rparr>
      | (c1, None) \<Rightarrow>
          (let t1 = (if filepathIsAbs D (WorkingDir c1)
                        \<and> \<not> prefix (confWorkDir D) (WorkingDir c1)
                     then [Logged Execution LWarning
                             (Fields [(''message'', S ''the working directory is an absolute path without the required prefix''),
                                      (''path'', S (WorkingDir c1)),
                                      (''required_prefix'', S (confWorkDir D))])]
                     else [])
           in case getWorkingDirectory D (WorkingDir c1) of (wd, werr) \<Rightarrow>
              let c2 = c1\<lparr>WorkingDir := wd\<rparr>
              in case werr of
                   Some e \<Rightarrow>
                     \<lparr>result = Some (WorkingDirError e), spec = c2,
                      trace = t1 @ [Logged Execution LWarning (Text e)]\<rparr>
                 | None \<Rightarrow>
                     (case getWorkingDirectory D ''tmp'' of (taskTmpDir, terr) \<Rightarrow>
                      let t2 = (case terr of
                                  Some e \<Rightarrow> [Logged Execution LNotice (Text e)]
                                | None \<Rightarrow> []);
                          c3 = c2\<lparr>Env := addTempDirs (Env c2) taskTmpDir\<rparr>
                      in case stripEmptyArgs c3 of
                           None \<Rightarrow>
                             \<lparr>result = Some (Panic ''index out of range''), spec = c3,
                              trace = t1 @ t2\<rparr>
                         | Some c4 \<Rightarrow> executeRun D c4 (t1 @ t2))))"

subsection \<open>Notions used by the statements\<close>

text \<open>
  \<open>Execute\<close> gets as far as \<open>cmd.Run\<close> exactly when the expansions and the lookup of the
  working directory both succeed (lemma \<open>launches_iff_Ran\<close> below).
\<close>

definition launches :: "deps \<Rightarrow> subprocessExec \<Rightarrow> bool" where
  "launches D c \<longleftrightarrow>
     snd (doExpansions D c) = None \<and>
     snd (getWorkingDirectory D (WorkingDir (fst (doExpansions D c)))) = None"

text \<open>The strings that \<open>doExpansions\<close> passes to \<open>ExpandString\<close>.\<close>

definition expansionInputs :: "subprocessExec \<Rightarrow> string list" where
  "expansionInputs c =
     [WorkingDir c, Binary c, Command c] @ Args c @ map snd (Env c) @ Path c"

text \<open>
  The errors of the expansions that fail, one for each string expanded, in the order of
  \<open>expansionInputs\<close>.
\<close>

definition failureOf :: "deps \<Rightarrow> string \<Rightarrow> string list" where
  "failureOf D s = (case snd (expandString D s) of None \<Rightarrow> [] | Some m \<Rightarrow> [m])"

definition expansionFailures :: "deps \<Rightarrow> subprocessExec \<Rightarrow> string list" where
  "expansionFailures D c = concat (map (failureOf D) (expansionInputs c))"

subsection \<open>Concrete inputs for the examples\<close>

text \<open>
  Collaborators that answer as the real ones do on the strings of the examples: an
  expansion engine that rejects one malformed string and returns every other string as it
  is, a tokenizer that splits \<open>echo hi\<close> in two and, as \<open>shlex.Split\<close> does, finds no
  word in a string of blanks, a Unix path-list separator.
\<close>

definition sampleDeps :: deps where
  "sampleDeps =
     \<lparr>expandString = (\<lambda>s. if s = ''${bad'' then (s, Some ''unclosed expansion'') else (s, None)),
      expansionsMap = [(''PATH'', ''/expansion/bin'')],
      shlexSplit = (\<lambda>s. if s = ''echo hi'' then ([''echo'', ''hi''], None)
                         else if list_all (\<lambda>ch. ch = CHR '' '') s then ([], None)
                         else ([s], None)),
      getenvPATH = ''/usr/bin'',
      listSeparator = '':'',
      itoaGetpid = ''4242'',
      MarkerTaskID = ''EVR_TASK_ID'',
      MarkerAgentPID = ''EVR_AGENT_PID'',
      filepathJoin = (\<lambda>a b. a @ ''/'' @ b),
      filepathIsAbs = (\<lambda>p. take 1 p = ''/''),
      confWorkDir = ''/data/work'',
      getWorkingDirectory = (\<lambda>d. (''/data/work/'' @ d, None)),
      taskId = ''t1'',
      cmdRun = (\<lambda>cmd. Some (ExitFailed ''exit status 1'')),
      ctxErr = True\<rparr>"

definition sampleExec :: subprocessExec where
  "sampleExec =
     \<lparr>Binary = ''echo'',
      Args = [''a'', [], ''b'', []],
      Env = [(''EVR_TASK_ID'', ''mine'')],
      Command = [],
      Path = [''/opt/tool''],
      AddExpansionsToEnv = False,
      IncludeExpansionsInEnv = [],
      Background = False,
      Silent = True,
      SystemLog = False,
      WorkingDir = ''src'',
      IgnoreStandardOutput = False,
      IgnoreStandardError = False,
      RedirectStandardErrorToOutput = True,
      ContinueOnError = True,
      KeepEmptyArgs = False\<rparr>"

text \<open>
  A struct that \<open>ParseParams\<close> accepts as it is, with an argument of one blank, an empty
  argument and an ordinary one.
\<close>

definition blankArgExec :: subprocessExec where
  "blankArgExec = sampleExec\<lparr>Silent := False, Args := ['' '', [], ''b'']\<rparr>"

section \<open>Properties\<close>

subsection \<open>Removal of empty arguments\<close>

lemma stripLoop_filter:
  "\<forall>s\<in>set suf. s \<noteq> [] \<Longrightarrow>
   stripLoop (length pre) (pre @ suf) = Some (filter (\<lambda>a. a \<noteq> []) pre @ suf)"
proof (induction pre arbitrary: suf rule: rev_induct)
  case Nil
  then show ?case by simp
next
  case (snoc x xs)
  show ?case
  proof (cases "x = []")
    case True
    then show ?thesis using snoc.IH[OF snoc.prems] by (simp add: nth_append)
  next
    case False
    have "\<forall>s\<in>set (x # suf). s \<noteq> []" using False snoc.prems by simp
    from snoc.IH[OF this] False show ?thesis by (simp add: nth_append)
  qed
qed

lemma stripLoop_all: "stripLoop (length args) args = Some (filter (\<lambda>a. a \<noteq> []) args)"
  using stripLoop_filter[of "[]" args] by simp

lemma stripEmptyArgs_eq:
  "stripEmptyArgs c =
     Some (c\<lparr>Args := (if KeepEmptyArgs c then Args c
                        else filter (\<lambda>a. a \<noteq> []) (Args c))\<rparr>)"
  by (simp add: stripEmptyArgs_def stripLoop_all)

subsection \<open>Normalisation\<close>

lemma splitCommands_flags:
  "splitCommands D c = Inr c1 \<Longrightarrow>
     Silent c1 = Silent c
     \<and> RedirectStandardErrorToOutput c1 = RedirectStandardErrorToOutput c
     \<and> IgnoreStandardOutput c1 = IgnoreStandardOutput c"
  by (auto simp: splitCommands_def split: if_splits prod.splits option.splits list.splits)

lemma splitCommands_err:
  "splitCommands D c = Inl e \<Longrightarrow> \<exists>m. e = ConfigurationConflict m"
  by (auto simp: splitCommands_def split: if_splits prod.splits option.splits list.splits)

text \<open>
  Claim C4. When \<open>Command\<close> is non-empty and \<open>Binary\<close> is non-empty or \<open>Args\<close> has an
  element, \<open>splitCommands\<close>, and so \<open>ParseParams\<close>, fails with the configuration conflict
  "must specify command as either arguments or a command string but not both". The
  tokenizer is not consulted, and normalisation has no access to the process manager:
  its whole effect is the value returned.
\<close>

theorem command_and_binary_conflict:
  "Command c \<noteq> [] \<Longrightarrow> Binary c \<noteq> [] \<or> Args c \<noteq> [] \<Longrightarrow>
     splitCommands D c = Inl (ConfigurationConflict
       ''must specify command as either arguments or a command string but not both'')
     \<and> ParseParams D c = Inl (ConfigurationConflict
       ''must specify command as either arguments or a command string but not both'')"
  by (simp add: splitCommands_def ParseParams_def)

theorem command_and_binary_conflict_witness:
  "Command (sampleExec\<lparr>Command := ''echo hi''\<rparr>) \<noteq> []
   \<and> Binary (sampleExec\<lparr>Command := ''echo hi''\<rparr>) \<noteq> []
   \<and> ParseParams sampleDeps (sampleExec\<lparr>Command := ''echo hi''\<rparr>) = Inl (ConfigurationConflict
       ''must specify command as either arguments or a command string but not both'')"
  using command_and_binary_conflict[of "sampleExec\<lparr>Command := ''echo hi''\<rparr>" sampleDeps]
  by (simp add: sampleExec_def)

text \<open>
  Claim C9. With \<open>Silent\<close> and \<open>RedirectStandardErrorToOutput\<close> both set, \<open>ParseParams\<close>
  fails with a configuration conflict whatever \<open>IgnoreStandardOutput\<close> was: when
  \<open>splitCommands\<close> succeeds, \<open>Silent\<close> has set \<open>IgnoreStandardOutput\<close> before the check,
  and the error is "cannot ignore standard out, and redirect standard error to it".
\<close>

theorem silent_with_redirect_conflict:
  "Silent c \<Longrightarrow> RedirectStandardErrorToOutput c \<Longrightarrow>
     (\<exists>m. ParseParams D c = Inl (ConfigurationConflict m))
     \<and> (\<forall>c1. splitCommands D c = Inr c1 \<longrightarrow>
           ParseParams D c = Inl (ConfigurationConflict
             ''cannot ignore standard out, and redirect standard error to it''))"
  by (cases "splitCommands D c")
     (auto simp: ParseParams_def dest: splitCommands_err splitCommands_flags)

theorem silent_with_redirect_conflict_witness:
  "Silent sampleExec \<and> RedirectStandardErrorToOutput sampleExec
   \<and> \<not> IgnoreStandardOutput sampleExec
   \<and> splitCommands sampleDeps sampleExec = Inr sampleExec
   \<and> ParseParams sampleDeps sampleExec = Inl (ConfigurationConflict
        ''cannot ignore standard out, and redirect standard error to it'')"
  using silent_with_redirect_conflict[of sampleExec sampleDeps]
  by (simp add: sampleExec_def splitCommands_def)

text \<open>
  Claim C5, amended. For a struct whose \<open>Command\<close> is non-empty, whose \<open>Binary\<close> and
  \<open>Args\<close> are empty, and whose command string the tokenizer splits without error:
  \<open>splitCommands\<close> fails with the configuration conflict "no arguments for command
  subprocess.exec" when there is no token, and otherwise sets \<open>Binary\<close> to the first token
  and \<open>Args\<close> to the others, which is what \<open>ParseParams\<close> returns whenever it succeeds.
  With a tokenizer that splits \<open>echo hi\<close> into \<open>echo\<close> and \<open>hi\<close>, the command \<open>echo hi\<close>
  gives \<open>Binary = echo\<close> and \<open>Args = [hi]\<close>.
\<close>

theorem splitCommands_sets_binary_and_args:
  assumes "Command c \<noteq> []" and "Binary c = []" and "Args c = []"
    and "shlexSplit D (Command c) = (toks, None)"
  shows "splitCommands D c =
           (case toks of
              [] \<Rightarrow> Inl (ConfigurationConflict (''no arguments for command '' @ Name))
            | b # rest \<Rightarrow> Inr (c\<lparr>Binary := b, Args := rest\<rparr>))
         \<and> (toks = [] \<longrightarrow>
               ParseParams D c = Inl (ConfigurationConflict (''no arguments for command '' @ Name)))
         \<and> (\<forall>c'. ParseParams D c = Inr c' \<longrightarrow>
               (\<exists>b rest. toks = b # rest \<and> Binary c' = b \<and> Args c' = rest))"
  using assms
  by (cases toks) (auto simp: splitCommands_def ParseParams_def Let_def split: if_splits)

theorem splitCommands_sets_binary_and_args_witness:
  "Command (sampleExec\<lparr>Command := ''echo hi'', Binary := [], Args := []\<rparr>) \<noteq> []
   \<and> Binary (sampleExec\<lparr>Command := ''echo hi'', Binary := [], Args := []\<rparr>) = []
   \<and> Args (sampleExec\<lparr>Command := ''echo hi'', Binary := [], Args := []\<rparr>) = []
   \<and> shlexSplit sampleDeps ''echo hi'' = ([''echo'', ''hi''], None)
   \<and> splitCommands sampleDeps (sampleExec\<lparr>Command := ''echo hi'', Binary := [], Args := []\<rparr>)
       = Inr (sampleExec\<lparr>Command := ''echo hi'', Binary := ''echo'', Args := [''hi'']\<rparr>)"
proof -
  have h: "shlexSplit sampleDeps
             (Command (sampleExec\<lparr>Command := ''echo hi'', Binary := [], Args := []\<rparr>))
           = ([''echo'', ''hi''], None)"
    by (simp add: sampleDeps_def)
  from splitCommands_sets_binary_and_args[OF _ _ _ h] h show ?thesis by simp
qed

text \<open>
  Claim C5 as stated, for every struct with a non-empty command that tokenizes to a
  non-empty sequence, fails when \<open>Binary\<close> is set as well: \<open>echo hi\<close> tokenizes to two
  tokens, and normalisation fails with the conflict of C4 instead of setting \<open>Binary\<close>.
\<close>

theorem command_with_binary_counterexample:
  "Command (sampleExec\<lparr>Command := ''echo hi'', Binary := ''ls'', Args := []\<rparr>) \<noteq> []
   \<and> shlexSplit sampleDeps
        (Command (sampleExec\<lparr>Command := ''echo hi'', Binary := ''ls'', Args := []\<rparr>))
       = ([''echo'', ''hi''], None)
   \<and> splitCommands sampleDeps (sampleExec\<lparr>Command := ''echo hi'', Binary := ''ls'', Args := []\<rparr>)
       = Inl (ConfigurationConflict
           ''must specify command as either arguments or a command string but not both'')
   \<and> ParseParams sampleDeps (sampleExec\<lparr>Command := ''echo hi'', Binary := ''ls'', Args := []\<rparr>)
       = Inl (ConfigurationConflict
           ''must specify command as either arguments or a command string but not both'')"
  by (simp add: splitCommands_def ParseParams_def sampleDeps_def)

subsection \<open>The process constructor\<close>

text \<open>
  Claim C8. For a background command whose \<open>CreateProcess\<close> fails, the constructor built
  by \<open>getProc\<close> creates the private context, cancels it, and only then returns the launch
  error: nothing else happens, and the cancel function has been called.
\<close>

theorem background_launch_failure_cancels:
  "Background c \<Longrightarrow>
     cmdProcConstructor (snd (getProc D t c)) (Inl err)
       = (Inl (LaunchError err), [PrivateContextCreated, PrivateContextCancelled])"
  by (simp add: getProc_def procConstructor_def Let_def)

theorem background_launch_failure_cancels_witness:
  "Background (sampleExec\<lparr>Background := True\<rparr>)
   \<and> cmdProcConstructor (snd (getProc sampleDeps ''t1'' (sampleExec\<lparr>Background := True\<rparr>)))
        (Inl ''executable file not found'')
       = (Inl (LaunchError ''executable file not found''),
          [PrivateContextCreated, PrivateContextCancelled])"
  using background_launch_failure_cancels[of "sampleExec\<lparr>Background := True\<rparr>"
          sampleDeps "''t1''" "''executable file not found''"]
  by simp

subsection \<open>What doExpansions collects and leaves\<close>

lemma expandPath_fst:
  "fst (expandPath D ps path errs) = path @ map (\<lambda>p. fst (expandString D p)) ps"
  by (induction ps arbitrary: path errs) (auto split: prod.splits)

lemma doExpansions_unfold:
  assumes 1: "expandString D (WorkingDir c) = (wd, e1)"
    and 2: "expandString D (Binary c) = (bin, e2)"
    and 3: "expandString D (Command c) = (cmd, e3)"
    and 4: "expandArgs D (Args c) [] (catcherAdd (catcherAdd (catcherAdd [] e1) e2) e3)
              = (newArgs, errs1)"
    and 5: "expandEnv D (Env c) [] errs1 = (env1, errs2)"
    and 6: "expandPath D (Path c) [] errs2 = (path, errs3)"
  shows "doExpansions D c =
     (c\<lparr>WorkingDir := wd, Binary := bin, Command := cmd, Args := newArgs,
        Env := includeExpansions (expansionsMap D) (IncludeExpansionsInEnv c)
                 (if AddExpansionsToEnv c
                  then addExpansions (expansionsMap D)
                         (if Path c \<noteq> []
                          then AList.update ''PATH''
                                 (stringsJoin (path @ [getenvPATH D]) (listSeparator D)) env1
                          else env1)
                  else (if Path c \<noteq> []
                        then AList.update ''PATH''
                               (stringsJoin (path @ [getenvPATH D]) (listSeparator D)) env1
                        else env1))\<rparr>,
      if errs3 = [] then None else Some (ExpansionError errs3))"
proof (cases "Path c = []")
  case True
  then have "errs3 = errs2" using 6 by simp
  then show ?thesis using True
    by (simp add: doExpansions_def 1 2 3 4 5 Let_def)
next
  case False
  then show ?thesis
    by (simp add: doExpansions_def 1 2 3 4 5 6 Let_def)
qed

lemma catcherAdd_append: "catcherAdd errs e = errs @ (case e of None \<Rightarrow> [] | Some m \<Rightarrow> [m])"
  by (cases e) simp_all

lemma expandArgs_subseq:
  "expandArgs D as n errs = (n', errs') \<Longrightarrow>
     \<exists>more. errs' = errs @ more \<and> subseq (concat (map (failureOf D) as)) more"
proof (induction as arbitrary: n errs)
  case Nil
  then show ?case by simp
next
  case (Cons a as)
  obtain arg err where a: "expandString D a = (arg, err)" by (cases "expandString D a")
  obtain sp err2 where s: "shlexSplit D arg = (sp, err2)" by (cases "shlexSplit D arg")
  have f: "failureOf D a = (case err of None \<Rightarrow> [] | Some m \<Rightarrow> [m])"
    by (simp add: failureOf_def a)
  show ?case
  proof (cases "arg = []")
    case True
    with Cons.prems a have "expandArgs D as (n @ [arg]) (catcherAdd errs err) = (n', errs')"
      by simp
    from Cons.IH[OF this] obtain more where
      m: "errs' = catcherAdd errs err @ more" "subseq (concat (map (failureOf D) as)) more"
      by blast
    have "errs' = errs @ (failureOf D a @ more)" using m(1) by (simp add: catcherAdd_append f)
    moreover have "subseq (concat (map (failureOf D) (a # as))) (failureOf D a @ more)"
      using m(2) by (simp add: list_emb_append_mono)
    ultimately show ?thesis by blast
  next
    case False
    with Cons.prems a s
    have "expandArgs D as (n @ sp) (catcherAdd (catcherAdd errs err) err2) = (n', errs')"
      by simp
    from Cons.IH[OF this] obtain more where
      m: "errs' = catcherAdd (catcherAdd errs err) err2 @ more"
         "subseq (concat (map (failureOf D) as)) more"
      by blast
    define e2 where "e2 = (case err2 of None \<Rightarrow> [] | Some m \<Rightarrow> [m])"
    have "errs' = errs @ (failureOf D a @ e2 @ more)"
      using m(1) by (simp add: catcherAdd_append f e2_def)
    moreover have "subseq (concat (map (failureOf D) as)) (e2 @ more)"
      using m(2) by (simp add: list_emb_append2)
    then have "subseq (concat (map (failureOf D) (a # as))) (failureOf D a @ e2 @ more)"
      by (simp add: list_emb_append_mono)
    ultimately show ?thesis by blast
  qed
qed

lemma expandEnv_snd:
  "snd (expandEnv D kvs dn errs) = errs @ concat (map (failureOf D) (map snd kvs))"
proof (induction kvs arbitrary: dn errs)
  case Nil
  then show ?case by simp
next
  case (Cons kv kvs)
  obtain k v where kv: "kv = (k, v)" by (cases kv)
  obtain v' err where a: "expandString D v = (v', err)" by (cases "expandString D v")
  show ?case using Cons.IH[of "dn @ [(k, v')]" "catcherAdd errs err"]
    by (simp add: kv a catcherAdd_append failureOf_def)
qed

lemma expandPath_snd:
  "snd (expandPath D ps path errs) = errs @ concat (map (failureOf D) ps)"
proof (induction ps arbitrary: path errs)
  case Nil
  then show ?case by simp
next
  case (Cons p ps)
  obtain p' err where a: "expandString D p = (p', err)" by (cases "expandString D p")
  show ?case using Cons.IH[of "path @ [p']" "catcherAdd errs err"]
    by (simp add: a catcherAdd_append failureOf_def)
qed

lemma doExpansions_subseq:
  "\<exists>es. snd (doExpansions D c) = (if es = [] then None else Some (ExpansionError es))
        \<and> subseq (expansionFailures D c) es"
proof -
  obtain wd e1 where 1: "expandString D (WorkingDir c) = (wd, e1)"
    by (cases "expandString D (WorkingDir c)")
  obtain bin e2 where 2: "expandString D (Binary c) = (bin, e2)"
    by (cases "expandString D (Binary c)")
  obtain cmd e3 where 3: "expandString D (Command c) = (cmd, e3)"
    by (cases "expandString D (Command c)")
  define errs0 where "errs0 = catcherAdd (catcherAdd (catcherAdd [] e1) e2) e3"
  obtain newArgs errs1 where 4: "expandArgs D (Args c) [] errs0 = (newArgs, errs1)"
    by (cases "expandArgs D (Args c) [] errs0")
  obtain env1 errs2 where 5: "expandEnv D (Env c) [] errs1 = (env1, errs2)"
    by (cases "expandEnv D (Env c) [] errs1")
  obtain path errs3 where 6: "expandPath D (Path c) [] errs2 = (path, errs3)"
    by (cases "expandPath D (Path c) [] errs2")
  have d: "snd (doExpansions D c) = (if errs3 = [] then None else Some (ExpansionError errs3))"
    by (simp add: doExpansions_unfold[OF 1 2 3 4[unfolded errs0_def] 5 6])
  have s0: "errs0 = failureOf D (WorkingDir c) @ failureOf D (Binary c) @ failureOf D (Command c)"
    by (simp add: errs0_def catcherAdd_append failureOf_def 1 2 3)
  from expandArgs_subseq[OF 4] obtain more where
    m: "errs1 = errs0 @ more" "subseq (concat (map (failureOf D) (Args c))) more" by blast
  have s2: "errs2 = errs1 @ concat (map (failureOf D) (map snd (Env c)))"
    using expandEnv_snd[of D "Env c" "[]" errs1] 5 by simp
  have s3: "errs3 = errs2 @ concat (map (failureOf D) (Path c))"
    using expandPath_snd[of D "Path c" "[]" errs2] 6 by simp
  have "subseq (concat (map (failureOf D) (Args c))
                      @ concat (map (failureOf D) (map snd (Env c)))
                      @ concat (map (failureOf D) (Path c)))
                    (more
                      @ concat (map (failureOf D) (map snd (Env c)))
                      @ concat (map (failureOf D) (Path c)))"
    using m(2) by (rule list_emb_append_mono) simp
  then have "subseq (errs0 @ concat (map (failureOf D) (Args c))
                      @ concat (map (failureOf D) (map snd (Env c)))
                      @ concat (map (failureOf D) (Path c)))
                    (errs0 @ more
                      @ concat (map (failureOf D) (map snd (Env c)))
                      @ concat (map (failureOf D) (Path c)))"
    by (simp add: subseq_append')
  then have "subseq (expansionFailures D c) errs3"
    by (simp add: expansionFailures_def expansionInputs_def s0 s2 s3 m(1))
  then show ?thesis using d by blast
qed

lemma failure_in_expansionFailures:
  assumes "s \<in> set (expansionInputs c)" and "snd (expandString D s) = Some m"
  shows "m \<in> set (expansionFailures D c)"
proof -
  have "m \<in> set (failureOf D s)" using assms(2) by (simp add: failureOf_def)
  then show ?thesis using assms(1) by (auto simp: expansionFailures_def)
qed

lemma subseq_member: "subseq xs ys \<Longrightarrow> x \<in> set xs \<Longrightarrow> x \<in> set ys"
  by (erule list_emb_set) auto

lemma doExpansions_errs:
  assumes "s \<in> set (expansionInputs c)" and "snd (expandString D s) = Some m"
  shows "\<exists>es. snd (doExpansions D c) = Some (ExpansionError es)
           \<and> subseq (expansionFailures D c) es \<and> m \<in> set es"
proof -
  from doExpansions_subseq[of D c] obtain es where
    es: "snd (doExpansions D c) = (if es = [] then None else Some (ExpansionError es))"
        "subseq (expansionFailures D c) es"
    by blast
  have "m \<in> set es"
    using subseq_member[OF es(2) failure_in_expansionFailures[OF assms]] .
  then have "es \<noteq> []" by auto
  then show ?thesis using es \<open>m \<in> set es\<close> by auto
qed

lemma doExpansions_flags:
  "doExpansions D c = (c1, e) \<Longrightarrow>
     ContinueOnError c1 = ContinueOnError c \<and> Background c1 = Background c \<and>
     KeepEmptyArgs c1 = KeepEmptyArgs c \<and> Silent c1 = Silent c"
  unfolding doExpansions_def Let_def
  by (auto split: prod.splits)

text \<open>The loops of doExpansions consult only the expansion engine and the tokenizer.\<close>

lemma expandArgs_cong:
  "expandString D' = expandString D \<Longrightarrow> shlexSplit D' = shlexSplit D \<Longrightarrow>
     expandArgs D' as n e = expandArgs D as n e"
  by (induction as arbitrary: n e) (auto split: prod.splits)

lemma expandEnv_cong:
  "expandString D' = expandString D \<Longrightarrow> expandEnv D' kvs n e = expandEnv D kvs n e"
  by (induction kvs arbitrary: n e) (auto split: prod.splits)

lemma expandPath_cong:
  "expandString D' = expandString D \<Longrightarrow> expandPath D' ps n e = expandPath D ps n e"
  by (induction ps arbitrary: n e) (auto split: prod.splits)

lemma doExpansions_cmdRun:
  "doExpansions (D\<lparr>cmdRun := r\<rparr>) c = doExpansions D c"
  by (simp add: doExpansions_def expandArgs_cong[of "D\<lparr>cmdRun := r\<rparr>" D]
        expandEnv_cong[of "D\<lparr>cmdRun := r\<rparr>" D] expandPath_cong[of "D\<lparr>cmdRun := r\<rparr>" D]
        cong: prod.case_cong if_cong)

lemma doExpansions_Background:
  "doExpansions D (c\<lparr>Background := b\<rparr>) =
     (fst (doExpansions D c)\<lparr>Background := b\<rparr>, snd (doExpansions D c))"
  by (simp add: doExpansions_def Let_def split: prod.splits)

subsection \<open>PATH\<close>

lemma map_of_addExpansions:
  "k \<notin> fst ` set exps \<Longrightarrow> map_of (addExpansions exps env) k = map_of env k"
  by (induction exps arbitrary: env) (auto simp: update_conv')

lemma map_of_includeExpansions:
  "k \<notin> set eis \<or> map_of exps k = None \<Longrightarrow>
     map_of (includeExpansions exps eis env) k = map_of env k"
  by (induction eis arbitrary: env) (auto simp: update_conv' split: option.splits)

text \<open>
  Claim C6, amended. For a struct with a non-empty \<open>Path\<close>, provided the expansions do not
  define \<open>PATH\<close>, or \<open>AddExpansionsToEnv\<close> is unset and \<open>IncludeExpansionsInEnv\<close> does not
  name \<open>PATH\<close>: in the environment that \<open>doExpansions\<close> leaves, \<open>PATH\<close> is the expanded
  segments of \<open>Path\<close> in order, then the agent's own \<open>PATH\<close>, joined with the path-list
  separator, whatever \<open>PATH\<close> the environment held before. For a single segment \<open>p\<close> it is
  the expansion of \<open>p\<close>, the separator, and the inherited \<open>PATH\<close>.
\<close>

theorem PATH_composed_from_add_to_path:
  assumes "Path c \<noteq> []"
    and "map_of (expansionsMap D) ''PATH'' = None
         \<or> (\<not> AddExpansionsToEnv c \<and> ''PATH'' \<notin> set (IncludeExpansionsInEnv c))"
  shows "map_of (Env (fst (doExpansions D c))) ''PATH''
           = Some (stringsJoin (map (\<lambda>p. fst (expandString D p)) (Path c) @ [getenvPATH D])
                     (listSeparator D))
         \<and> (\<forall>p. Path c = [p] \<longrightarrow>
               map_of (Env (fst (doExpansions D c))) ''PATH''
                 = Some (fst (expandString D p) @ listSeparator D @ getenvPATH D))"
proof -
  obtain wd e1 where 1: "expandString D (WorkingDir c) = (wd, e1)"
    by (cases "expandString D (WorkingDir c)")
  obtain bin e2 where 2: "expandString D (Binary c) = (bin, e2)"
    by (cases "expandString D (Binary c)")
  obtain cmd e3 where 3: "expandString D (Command c) = (cmd, e3)"
    by (cases "expandString D (Command c)")
  obtain newArgs errs1 where 4:
    "expandArgs D (Args c) [] (catcherAdd (catcherAdd (catcherAdd [] e1) e2) e3) = (newArgs, errs1)"
    by (cases "expandArgs D (Args c) [] (catcherAdd (catcherAdd (catcherAdd [] e1) e2) e3)")
  obtain env1 errs2 where 5: "expandEnv D (Env c) [] errs1 = (env1, errs2)"
    by (cases "expandEnv D (Env c) [] errs1")
  obtain path errs3 where 6: "expandPath D (Path c) [] errs2 = (path, errs3)"
    by (cases "expandPath D (Path c) [] errs2")
  have p: "path = map (\<lambda>p. fst (expandString D p)) (Path c)"
    using expandPath_fst[of D "Path c" "[]" errs2] 6 by simp
  define joined where "joined = stringsJoin (path @ [getenvPATH D]) (listSeparator D)"
  define env2 where "env2 = AList.update ''PATH'' joined env1"
  have e2: "map_of env2 ''PATH'' = Some joined" by (simp add: env2_def update_conv')
  have inc: "map_of (includeExpansions (expansionsMap D) (IncludeExpansionsInEnv c) env) ''PATH''
               = map_of env ''PATH''" for env
    by (rule map_of_includeExpansions) (use assms(2) in auto)
  have add: "AddExpansionsToEnv c \<Longrightarrow>
               map_of (addExpansions (expansionsMap D) env2) ''PATH'' = map_of env2 ''PATH''"
    by (rule map_of_addExpansions) (use assms(2) in \<open>auto simp: map_of_eq_None_iff\<close>)
  have "map_of (Env (fst (doExpansions D c))) ''PATH'' = Some joined"
    using assms(1) inc add e2
    by (simp add: doExpansions_unfold[OF 1 2 3 4 5 6] joined_def[symmetric] env2_def[symmetric])
  then show ?thesis by (auto simp: joined_def p)
qed

theorem PATH_composed_from_add_to_path_witness:
  "Path sampleExec \<noteq> []
   \<and> \<not> AddExpansionsToEnv sampleExec \<and> ''PATH'' \<notin> set (IncludeExpansionsInEnv sampleExec)
   \<and> map_of (Env (fst (doExpansions sampleDeps sampleExec))) ''PATH''
       = Some ''/opt/tool:/usr/bin''"
proof -
  have h1: "Path sampleExec \<noteq> []" by (simp add: sampleExec_def)
  have h2: "map_of (expansionsMap sampleDeps) ''PATH'' = None
         \<or> (\<not> AddExpansionsToEnv sampleExec \<and> ''PATH'' \<notin> set (IncludeExpansionsInEnv sampleExec))"
    by (simp add: sampleExec_def)
  from PATH_composed_from_add_to_path[OF h1 h2] h1 h2 show ?thesis
    by (simp add: sampleExec_def sampleDeps_def)
qed

text \<open>
  Claim C6 as stated, for every struct with a non-empty \<open>Path\<close>, fails: the copy of the
  expansions into the environment comes after the composition of \<open>PATH\<close>, and an expansion
  named \<open>PATH\<close> replaces the composed value.
\<close>

theorem PATH_replaced_by_expansion_counterexample:
  "Path (sampleExec\<lparr>AddExpansionsToEnv := True\<rparr>) \<noteq> []
   \<and> map_of (Env (fst (doExpansions sampleDeps (sampleExec\<lparr>AddExpansionsToEnv := True\<rparr>))))
        ''PATH'' = Some ''/expansion/bin''
   \<and> stringsJoin (map (\<lambda>p. fst (expandString sampleDeps p))
                    (Path (sampleExec\<lparr>AddExpansionsToEnv := True\<rparr>))
                  @ [getenvPATH sampleDeps]) (listSeparator sampleDeps)
       = ''/opt/tool:/usr/bin''"
  by (simp add: doExpansions_def sampleDeps_def sampleExec_def Let_def)

subsection \<open>The run and the check of the context\<close>

lemma executeRun_result:
  "result (executeRun D c t) =
     (if ctxErr D then Some (Aborted (Name @ '' aborted''))
      else if ContinueOnError c then None
      else map_option run_error (cmdRun D (snd (getProc D (taskId D) c))))"
  by (simp add: executeRun_def runCommand_def getProc_def Let_def split: prod.splits)

lemma executeRun_spec: "spec (executeRun D c t) = fst (getProc D (taskId D) c)"
  by (simp add: executeRun_def Let_def split: prod.splits)

lemma executeRun_trace_aborted:
  "ctxErr D \<Longrightarrow>
     \<exists>pre cmd err. trace (executeRun D c t) =
        t @ pre @ [Logged System LDebug (Text ''dumping running processes''),
                   Logged System LDebug CollectAllProcesses,
                   Logged Execution LNotice (ErrorValue err)]
        \<and> Ran cmd \<in> set pre"
  by (auto simp add: executeRun_def runCommand_def Let_def split: prod.splits)

lemma executeRun_ran: "\<exists>cmd. Ran cmd \<in> set (trace (executeRun D c t))"
  by (auto simp add: executeRun_def runCommand_def Let_def split: prod.splits)

lemma Execute_launches:
  assumes "launches D c"
    and d: "doExpansions D c = (c1, e)"
    and w: "getWorkingDirectory D (WorkingDir c1) = (wd, we)"
    and t: "getWorkingDirectory D ''tmp'' = (tmp, te)"
  shows "\<exists>t. Execute D c =
           executeRun D
             (c1\<lparr>WorkingDir := wd, Env := addTempDirs (Env c1) tmp,
                  Args := (if KeepEmptyArgs c then Args c1
                           else filter (\<lambda>a. a \<noteq> []) (Args c1))\<rparr>) t"
proof -
  from assms(1) d w have n: "e = None" "we = None" by (simp_all add: launches_def)
  define c3 where "c3 = c1\<lparr>WorkingDir := wd, Env := addTempDirs (Env c1) tmp\<rparr>"
  define c4 where "c4 = c3\<lparr>Args := (if KeepEmptyArgs c3 then Args c3
                                     else filter (\<lambda>a. a \<noteq> []) (Args c3))\<rparr>"
  have s: "stripEmptyArgs c3 = Some c4" by (simp add: stripEmptyArgs_eq c4_def)
  have "\<exists>t. Execute D c = executeRun D c4 t"
    using s by (auto simp add: Execute_def d w t n Let_def c3_def)
  moreover have "c4 = c1\<lparr>WorkingDir := wd, Env := addTempDirs (Env c1) tmp,
                  Args := (if KeepEmptyArgs c then Args c1
                           else filter (\<lambda>a. a \<noteq> []) (Args c1))\<rparr>"
    using doExpansions_flags[OF d] by (simp add: c4_def c3_def)
  ultimately show ?thesis by simp
qed

lemma Execute_launches_ex:
  assumes "launches D c"
  shows "\<exists>c4 t. Execute D c = executeRun D c4 t \<and> ContinueOnError c4 = ContinueOnError c"
proof -
  obtain c1 e where d: "doExpansions D c = (c1, e)" by (cases "doExpansions D c")
  obtain wd we where w: "getWorkingDirectory D (WorkingDir c1) = (wd, we)"
    by (cases "getWorkingDirectory D (WorkingDir c1)")
  obtain tmp te where t: "getWorkingDirectory D ''tmp'' = (tmp, te)"
    by (cases "getWorkingDirectory D ''tmp''")
  from Execute_launches[OF assms d w t] obtain tr where
    "Execute D c = executeRun D
             (c1\<lparr>WorkingDir := wd, Env := addTempDirs (Env c1) tmp,
                  Args := (if KeepEmptyArgs c then Args c1
                           else filter (\<lambda>a. a \<noteq> []) (Args c1))\<rparr>) tr" by blast
  moreover have "ContinueOnError (c1\<lparr>WorkingDir := wd, Env := addTempDirs (Env c1) tmp,
                  Args := (if KeepEmptyArgs c then Args c1
                           else filter (\<lambda>a. a \<noteq> []) (Args c1))\<rparr>) = ContinueOnError c"
    using doExpansions_flags[OF d] by simp
  ultimately show ?thesis by blast
qed

lemma Execute_not_launches:
  assumes "\<not> launches D c"
  shows "(\<exists>es. snd (doExpansions D c) = Some (ExpansionError es)
            \<and> result (Execute D c) = Some (ExpansionError es)
            \<and> trace (Execute D c)
                = [Logged Execution LError (Text ''problem expanding command values'')])
       \<or> (\<exists>m. result (Execute D c) = Some (WorkingDirError m)
            \<and> (\<forall>cmd. Ran cmd \<notin> set (trace (Execute D c))))"
proof -
  obtain c1 e where d: "doExpansions D c = (c1, e)" by (cases "doExpansions D c")
  obtain wd we where w: "getWorkingDirectory D (WorkingDir c1) = (wd, we)"
    by (cases "getWorkingDirectory D (WorkingDir c1)")
  show ?thesis
  proof (cases e)
    case (Some x)
    then have "\<exists>es. x = ExpansionError es" using d
      unfolding doExpansions_def Let_def by (auto split: prod.splits if_splits)
    then show ?thesis using Some d by (auto simp: Execute_def)
  next
    case None
    then obtain m where "we = Some m" using assms d w by (auto simp: launches_def)
    then show ?thesis using None d w by (simp add: Execute_def Let_def)
  qed
qed

lemma launches_iff_Ran: "launches D c \<longleftrightarrow> (\<exists>cmd. Ran cmd \<in> set (trace (Execute D c)))"
proof (cases "launches D c")
  case True
  from Execute_launches_ex[OF True] obtain c4 t where e: "Execute D c = executeRun D c4 t"
    by blast
  then show ?thesis using True executeRun_ran[of D c4 t] by simp
next
  case False
  then show ?thesis using Execute_not_launches[OF False] by auto
qed

lemma run_error_not_Aborted: "map_option run_error x \<noteq> Some (Aborted m)"
  by (cases x) (auto elim: run_error.elims)

lemma Aborted_iff: "(\<exists>m. result (Execute D c) = Some (Aborted m)) \<longleftrightarrow> launches D c \<and> ctxErr D"
proof (cases "launches D c")
  case True
  from Execute_launches_ex[OF True] obtain c4 t where e: "Execute D c = executeRun D c4 t" by blast
  show ?thesis using True e executeRun_result[of D c4 t] run_error_not_Aborted by auto
next
  case False
  then show ?thesis using Execute_not_launches[OF False] by auto
qed

lemma launches_indep:
  "launches (D\<lparr>cmdRun := r\<rparr>) (c\<lparr>Background := b\<rparr>) = launches D c"
  by (simp add: launches_def doExpansions_cmdRun doExpansions_Background)

lemma Execute_Args:
  assumes "launches D c"
  shows "Args (spec (Execute D c)) =
           (if KeepEmptyArgs c then Args (fst (doExpansions D c))
            else filter (\<lambda>a. a \<noteq> []) (Args (fst (doExpansions D c))))"
proof -
  obtain c1 e where d: "doExpansions D c = (c1, e)" by (cases "doExpansions D c")
  obtain wd we where w: "getWorkingDirectory D (WorkingDir c1) = (wd, we)"
    by (cases "getWorkingDirectory D (WorkingDir c1)")
  obtain tmp te where t: "getWorkingDirectory D ''tmp'' = (tmp, te)"
    by (cases "getWorkingDirectory D ''tmp''")
  from Execute_launches[OF assms d w t] show ?thesis
    by (auto simp: executeRun_spec getProc_def Let_def d)
qed

text \<open>The concrete inputs reach the run.\<close>

lemma sample_doExpansions:
  "doExpansions sampleDeps sampleExec =
     (sampleExec\<lparr>Env := [(''EVR_TASK_ID'', ''mine''), (''PATH'', ''/opt/tool:/usr/bin'')]\<rparr>, None)"
  by (simp add: doExpansions_def sampleDeps_def sampleExec_def Let_def)

lemma sample_launches: "launches sampleDeps sampleExec"
  by (simp add: launches_def sample_doExpansions) (simp add: sampleDeps_def)

lemma sample_ctxErr: "ctxErr sampleDeps"
  by (simp add: sampleDeps_def)

lemma sample_markers:
  "MarkerTaskID sampleDeps \<noteq> MarkerAgentPID sampleDeps"
  "{MarkerTaskID sampleDeps, MarkerAgentPID sampleDeps}
               \<inter> {''GOCACHE'', ''CI'', ''TMP'', ''TMPDIR'', ''TEMP''} = {}"
  by (simp_all add: sampleDeps_def)

subsection \<open>The final argument list\<close>

text \<open>The example of the empty strings: \<open>["a", "", "b", ""]\<close> ends as \<open>["a", "b"]\<close>.\<close>

lemma Execute_Args_example:
  "Args (fst (doExpansions sampleDeps sampleExec)) = [''a'', [], ''b'', []]
   \<and> Args (spec (Execute sampleDeps sampleExec)) = [''a'', ''b'']"
  by (simp add: Execute_Args[OF sample_launches] sample_doExpansions)
     (simp add: sampleExec_def)

text \<open>
  Claim C3. The loop of \<open>Execute\<close> does what the claim says: unless \<open>KeepEmptyArgs\<close> is
  set it leaves exactly the arguments that are not the empty string (lemmas
  \<open>stripEmptyArgs_eq\<close> and \<open>Execute_Args\<close>), so \<open>["a", "", "b", ""]\<close> ends as \<open>["a", "b"]\<close>.
  But an argument of blanks only never reaches that loop. \<open>doExpansions\<close> hands every
  argument whose expansion is not empty to the tokenizer and keeps the tokens in its
  place; the tokenizer finds no word in a string of blanks, and the argument is gone from
  the final list, with \<open>KeepEmptyArgs\<close> set or not. The comment on the field
  \<open>KeepEmptyArgs\<close> says that whitespace arguments are never stripped. The theorem runs
  \<open>Execute\<close> on the arguments \<open>[" ", "", "b"]\<close> of a struct that \<open>ParseParams\<close> accepts:
  the final arguments are \<open>["b"]\<close>, and \<open>["", "b"]\<close> with \<open>KeepEmptyArgs\<close> set.
\<close>

theorem blank_argument_lost_in_doExpansions:
  "ParseParams sampleDeps blankArgExec = Inr blankArgExec
   \<and> \<not> KeepEmptyArgs blankArgExec
   \<and> Args blankArgExec = ['' '', [], ''b'']
   \<and> expandString sampleDeps '' '' = ('' '', None)
   \<and> shlexSplit sampleDeps '' '' = ([], None)
   \<and> Args (fst (doExpansions sampleDeps blankArgExec)) = [[], ''b'']
   \<and> launches sampleDeps blankArgExec
   \<and> Args (spec (Execute sampleDeps blankArgExec)) = [''b'']
   \<and> launches sampleDeps (blankArgExec\<lparr>KeepEmptyArgs := True\<rparr>)
   \<and> Args (spec (Execute sampleDeps (blankArgExec\<lparr>KeepEmptyArgs := True\<rparr>))) = [[], ''b'']"
proof -
  have p: "ParseParams sampleDeps blankArgExec = Inr blankArgExec"
    by (simp add: ParseParams_def splitCommands_def blankArgExec_def sampleExec_def)
  have k: "\<not> KeepEmptyArgs blankArgExec" "Args blankArgExec = ['' '', [], ''b'']"
    by (simp_all add: blankArgExec_def sampleExec_def)
  have e: "expandString sampleDeps '' '' = ('' '', None)"
          "shlexSplit sampleDeps '' '' = ([], None)"
    by (simp_all add: sampleDeps_def)
  have d: "doExpansions sampleDeps (blankArgExec\<lparr>KeepEmptyArgs := kp\<rparr>)
             = (blankArgExec\<lparr>KeepEmptyArgs := kp, Args := [[], ''b''],
                               Env := [(''EVR_TASK_ID'', ''mine''),
                                       (''PATH'', ''/opt/tool:/usr/bin'')]\<rparr>, None)" for kp
    by (simp add: doExpansions_def sampleDeps_def blankArgExec_def sampleExec_def Let_def)
  have l: "launches sampleDeps (blankArgExec\<lparr>KeepEmptyArgs := kp\<rparr>)" for kp
    by (simp add: launches_def d) (simp add: sampleDeps_def)
  have a: "Args (spec (Execute sampleDeps (blankArgExec\<lparr>KeepEmptyArgs := kp\<rparr>)))
             = (if kp then [[], ''b''] else [''b''])" for kp
    by (simp add: Execute_Args[OF l] d)
  have same: "blankArgExec\<lparr>KeepEmptyArgs := False\<rparr> = blankArgExec"
    by (simp add: blankArgExec_def sampleExec_def)
  show ?thesis
    using p k e d[of False] l[of False] l[of True] a[of False] a[of True]
    by (simp add: same)
qed

subsection \<open>Failed expansions\<close>

text \<open>
  Claim C7. When the expansion of any string that \<open>doExpansions\<close> expands (the working
  directory, the binary, the command, an argument, a value of the environment, a segment of
  \<open>Path\<close>) fails, \<open>Execute\<close> returns one \<open>ExpansionError\<close>. The errors of all the
  expansions that fail, each counted and in order, are a subsequence of its list (the list
  also holds what the tokenizer reports on the expanded arguments), so no failure stops
  the others from being tried; and \<open>cmd.Run\<close> is never called.
\<close>

theorem expansion_failures_aggregated:
  assumes "s \<in> set (expansionInputs c)" and "snd (expandString D s) = Some m"
  shows "\<exists>es. result (Execute D c) = Some (ExpansionError es)
           \<and> subseq (expansionFailures D c) es
           \<and> (\<forall>s'\<in>set (expansionInputs c). \<forall>m'.
                 snd (expandString D s') = Some m' \<longrightarrow> m' \<in> set es)
           \<and> (\<forall>cmd. Ran cmd \<notin> set (trace (Execute D c)))"
proof -
  from doExpansions_errs[OF assms] obtain es where
    es: "snd (doExpansions D c) = Some (ExpansionError es)"
        "subseq (expansionFailures D c) es"
    by blast
  then have nl: "\<not> launches D c" by (simp add: launches_def)
  have r: "result (Execute D c) = Some (ExpansionError es)"
    using es(1) by (cases "doExpansions D c") (simp add: Execute_def)
  have all: "m' \<in> set es" if "s' \<in> set (expansionInputs c)" "snd (expandString D s') = Some m'"
    for s' m'
    using subseq_member[OF es(2) failure_in_expansionFailures[OF that]] .
  have "\<forall>cmd. Ran cmd \<notin> set (trace (Execute D c))"
    using nl launches_iff_Ran by blast
  then show ?thesis using r all es(2) by blast
qed

theorem expansion_failures_aggregated_witness:
  "''${bad'' \<in> set (expansionInputs (sampleExec\<lparr>WorkingDir := ''${bad'', Path := [''${bad'']\<rparr>))
   \<and> snd (expandString sampleDeps ''${bad'') = Some ''unclosed expansion''
   \<and> expansionFailures sampleDeps (sampleExec\<lparr>WorkingDir := ''${bad'', Path := [''${bad'']\<rparr>)
       = [''unclosed expansion'', ''unclosed expansion'']
   \<and> (\<exists>es. result (Execute sampleDeps (sampleExec\<lparr>WorkingDir := ''${bad'', Path := [''${bad'']\<rparr>))
              = Some (ExpansionError es)
           \<and> subseq [''unclosed expansion'', ''unclosed expansion''] es
           \<and> (\<forall>cmd. Ran cmd \<notin> set (trace (Execute sampleDeps
                        (sampleExec\<lparr>WorkingDir := ''${bad'', Path := [''${bad'']\<rparr>)))))"
proof -
  have h1: "''${bad''
              \<in> set (expansionInputs (sampleExec\<lparr>WorkingDir := ''${bad'', Path := [''${bad'']\<rparr>))"
    by (simp add: expansionInputs_def)
  have h2: "snd (expandString sampleDeps ''${bad'') = Some ''unclosed expansion''"
    by (simp add: sampleDeps_def)
  have f: "expansionFailures sampleDeps (sampleExec\<lparr>WorkingDir := ''${bad'', Path := [''${bad'']\<rparr>)
             = [''unclosed expansion'', ''unclosed expansion'']"
    by (simp add: expansionFailures_def expansionInputs_def failureOf_def sampleDeps_def
          sampleExec_def)
  from expansion_failures_aggregated[OF h1 h2] h1 h2 f show ?thesis by auto
qed

subsection \<open>Derived variables\<close>

lemma map_of_addTempDirs:
  "map_of (addTempDirs env dir) k =
     (if k \<in> {''TMP'', ''TMPDIR'', ''TEMP''}
      then Some (case map_of env k of Some v \<Rightarrow> v | None \<Rightarrow> dir)
      else map_of env k)"
  by (auto simp: addTempDirs_def update_conv' split: option.splits)

lemma Env_getProc:
  "map_of (Env (fst (getProc D t c))) k =
     (if k = ''CI'' \<and> k \<noteq> MarkerAgentPID D \<and> k \<noteq> MarkerTaskID D
        then Some (case map_of (Env c) k of Some v \<Rightarrow> v | None \<Rightarrow> ''true'')
      else if k = ''GOCACHE'' \<and> k \<noteq> MarkerAgentPID D \<and> k \<noteq> MarkerTaskID D
        then Some (case map_of (Env c) k of Some v \<Rightarrow> v
                   | None \<Rightarrow> filepathJoin D (WorkingDir c) ''.gocache'')
      else if k = MarkerAgentPID D then Some (itoaGetpid D)
      else if k = MarkerTaskID D then Some t
      else map_of (Env c) k)"
  by (auto simp: getProc_def Let_def update_conv' split: option.splits)

text \<open>
  Claim C2, amended. When \<open>Execute\<close> reaches the run (the marker names being two different
  names, neither of them one of the five variables below): in the final environment the
  task-id marker is the task id and the agent-PID marker is the agent's PID, whatever the
  environment held for them; \<open>GOCACHE\<close>, \<open>CI\<close>, \<open>TMP\<close>, \<open>TMPDIR\<close> and \<open>TEMP\<close> keep the value
  the environment had after the expansions when it had one, and otherwise are the cache
  directory under the working directory, \<open>true\<close>, and the task's temporary directory.
\<close>

theorem derived_variables_injected:
  assumes l: "launches D c"
    and m1: "MarkerTaskID D \<noteq> MarkerAgentPID D"
    and m2: "{MarkerTaskID D, MarkerAgentPID D}
               \<inter> {''GOCACHE'', ''CI'', ''TMP'', ''TMPDIR'', ''TEMP''} = {}"
  shows "let env0 = Env (fst (doExpansions D c));
             env' = Env (spec (Execute D c));
             wd = fst (getWorkingDirectory D (WorkingDir (fst (doExpansions D c))));
             tmp = fst (getWorkingDirectory D ''tmp'')
         in map_of env' (MarkerTaskID D) = Some (taskId D)
          \<and> map_of env' (MarkerAgentPID D) = Some (itoaGetpid D)
          \<and> map_of env' ''GOCACHE''
              = Some (case map_of env0 ''GOCACHE'' of Some v \<Rightarrow> v
                      | None \<Rightarrow> filepathJoin D wd ''.gocache'')
          \<and> map_of env' ''CI'' = Some (case map_of env0 ''CI'' of Some v \<Rightarrow> v | None \<Rightarrow> ''true'')
          \<and> (\<forall>k\<in>{''TMP'', ''TMPDIR'', ''TEMP''}.
                map_of env' k = Some (case map_of env0 k of Some v \<Rightarrow> v | None \<Rightarrow> tmp))"
proof -
  obtain c1 e where d: "doExpansions D c = (c1, e)" by (cases "doExpansions D c")
  obtain wd we where w: "getWorkingDirectory D (WorkingDir c1) = (wd, we)"
    by (cases "getWorkingDirectory D (WorkingDir c1)")
  obtain tmp te where t: "getWorkingDirectory D ''tmp'' = (tmp, te)"
    by (cases "getWorkingDirectory D ''tmp''")
  define c4 where "c4 = c1\<lparr>WorkingDir := wd, Env := addTempDirs (Env c1) tmp,
                  Args := (if KeepEmptyArgs c then Args c1
                           else filter (\<lambda>a. a \<noteq> []) (Args c1))\<rparr>"
  from Execute_launches[OF l d w t] obtain tr where "Execute D c = executeRun D c4 tr"
    unfolding c4_def by blast
  then have s: "spec (Execute D c) = fst (getProc D (taskId D) c4)"
    by (simp add: executeRun_spec)
  have e4: "Env c4 = addTempDirs (Env c1) tmp" "WorkingDir c4 = wd" by (simp_all add: c4_def)
  have g: "map_of (Env (spec (Execute D c))) k =
     (if k = ''CI'' \<and> k \<noteq> MarkerAgentPID D \<and> k \<noteq> MarkerTaskID D
        then Some (case map_of (addTempDirs (Env c1) tmp) k of Some v \<Rightarrow> v | None \<Rightarrow> ''true'')
      else if k = ''GOCACHE'' \<and> k \<noteq> MarkerAgentPID D \<and> k \<noteq> MarkerTaskID D
        then Some (case map_of (addTempDirs (Env c1) tmp) k of Some v \<Rightarrow> v
                   | None \<Rightarrow> filepathJoin D wd ''.gocache'')
      else if k = MarkerAgentPID D then Some (itoaGetpid D)
      else if k = MarkerTaskID D then Some (taskId D)
      else map_of (addTempDirs (Env c1) tmp) k)" for k
    unfolding s Env_getProc e4 ..
  have a: "MarkerTaskID D \<noteq> ''GOCACHE''" "MarkerTaskID D \<noteq> ''CI''"
    "MarkerTaskID D \<noteq> ''TMP''" "MarkerTaskID D \<noteq> ''TMPDIR''" "MarkerTaskID D \<noteq> ''TEMP''"
    "MarkerAgentPID D \<noteq> ''GOCACHE''" "MarkerAgentPID D \<noteq> ''CI''"
    "MarkerAgentPID D \<noteq> ''TMP''" "MarkerAgentPID D \<noteq> ''TMPDIR''" "MarkerAgentPID D \<noteq> ''TEMP''"
    using m2 by auto
  have k1: "map_of (Env (spec (Execute D c))) (MarkerTaskID D) = Some (taskId D)"
    using m1 a by (simp add: g)
  have k2: "map_of (Env (spec (Execute D c))) (MarkerAgentPID D) = Some (itoaGetpid D)"
    using m1 a by (simp add: g)
  have k3: "map_of (Env (spec (Execute D c))) ''GOCACHE''
              = Some (case map_of (Env c1) ''GOCACHE'' of Some v \<Rightarrow> v
                      | None \<Rightarrow> filepathJoin D wd ''.gocache'')"
    using a by (simp add: g map_of_addTempDirs)
  have k4: "map_of (Env (spec (Execute D c))) ''CI''
              = Some (case map_of (Env c1) ''CI'' of Some v \<Rightarrow> v | None \<Rightarrow> ''true'')"
    using a by (simp add: g map_of_addTempDirs)
  have k5: "map_of (Env (spec (Execute D c))) ''TMP''
              = Some (case map_of (Env c1) ''TMP'' of Some v \<Rightarrow> v | None \<Rightarrow> tmp)"
    using a by (simp add: g map_of_addTempDirs)
  have k6: "map_of (Env (spec (Execute D c))) ''TMPDIR''
              = Some (case map_of (Env c1) ''TMPDIR'' of Some v \<Rightarrow> v | None \<Rightarrow> tmp)"
    using a by (simp add: g map_of_addTempDirs)
  have k7: "map_of (Env (spec (Execute D c))) ''TEMP''
              = Some (case map_of (Env c1) ''TEMP'' of Some v \<Rightarrow> v | None \<Rightarrow> tmp)"
    using a by (simp add: g map_of_addTempDirs)
  show ?thesis
    using k1 k2 k3 k4 k5 k6 k7 by (simp add: d w t Let_def)
qed

theorem derived_variables_injected_witness:
  "launches sampleDeps (sampleExec\<lparr>Env := [(''CI'', ''false'')]\<rparr>)
   \<and> MarkerTaskID sampleDeps \<noteq> MarkerAgentPID sampleDeps
   \<and> {MarkerTaskID sampleDeps, MarkerAgentPID sampleDeps}
               \<inter> {''GOCACHE'', ''CI'', ''TMP'', ''TMPDIR'', ''TEMP''} = {}
   \<and> map_of (Env (spec (Execute sampleDeps (sampleExec\<lparr>Env := [(''CI'', ''false'')]\<rparr>)))) ''CI''
       = Some ''false''
   \<and> map_of (Env (spec (Execute sampleDeps (sampleExec\<lparr>Env := [(''CI'', ''false'')]\<rparr>)))) ''TMPDIR''
       = Some ''/data/work/tmp''
   \<and> map_of (Env (spec (Execute sampleDeps (sampleExec\<lparr>Env := [(''CI'', ''false'')]\<rparr>))))
        ''EVR_AGENT_PID''
       = Some ''4242''"
proof -
  have d: "doExpansions sampleDeps (sampleExec\<lparr>Env := [(''CI'', ''false'')]\<rparr>)
             = (sampleExec\<lparr>Env := [(''CI'', ''false''), (''PATH'', ''/opt/tool:/usr/bin'')]\<rparr>,
                None)"
    by (simp add: doExpansions_def sampleDeps_def sampleExec_def Let_def)
  have l: "launches sampleDeps (sampleExec\<lparr>Env := [(''CI'', ''false'')]\<rparr>)"
    by (simp add: launches_def d) (simp add: sampleDeps_def)
  from derived_variables_injected[OF l sample_markers] l sample_markers show ?thesis
    by (simp add: d Let_def) (simp add: sampleDeps_def)
qed

text \<open>
  Claim C2 as stated fails for the two markers: \<open>getProc\<close> writes them without looking,
  and a value the user gave for the task-id marker is replaced by the task id.
\<close>

theorem task_marker_overwritten_counterexample:
  "MarkerTaskID sampleDeps = ''EVR_TASK_ID''
   \<and> map_of (Env sampleExec) (MarkerTaskID sampleDeps) = Some ''mine''
   \<and> map_of (Env (fst (doExpansions sampleDeps sampleExec))) (MarkerTaskID sampleDeps)
       = Some ''mine''
   \<and> map_of (Env (spec (Execute sampleDeps sampleExec))) (MarkerTaskID sampleDeps)
       = Some ''t1''"
proof -
  have w: "getWorkingDirectory sampleDeps
             (WorkingDir (sampleExec\<lparr>Env := [(''EVR_TASK_ID'', ''mine''),
                                              (''PATH'', ''/opt/tool:/usr/bin'')]\<rparr>))
           = (''/data/work/src'', None)"
    by (simp add: sampleDeps_def sampleExec_def)
  have t: "getWorkingDirectory sampleDeps ''tmp'' = (''/data/work/tmp'', None)"
    by (simp add: sampleDeps_def)
  from Execute_launches[OF sample_launches sample_doExpansions w t]
  have "map_of (Env (spec (Execute sampleDeps sampleExec))) (MarkerTaskID sampleDeps)
          = Some (taskId sampleDeps)"
    by (auto simp: executeRun_spec Env_getProc) (simp_all add: sampleDeps_def)
  then show ?thesis
    by (simp add: sample_doExpansions) (simp add: sampleDeps_def sampleExec_def)
qed

subsection \<open>Cancellation\<close>

text \<open>
  Claim C1. When \<open>Execute\<close> reaches the run and the caller's context is done once the run
  has returned (for an attached process: the signal fired before the process finished),
  \<open>Execute\<close> returns the error "subprocess.exec aborted", whether \<open>ContinueOnError\<close> is
  set or not; and the events end with the two debug messages to the system logger, the
  second the dump of all processes, followed by the notice of the underlying error, all
  after the run.
\<close>

theorem cancellation_returns_Aborted: "launches D c \<Longrightarrow> ctxErr D \<Longrightarrow>
   result (Execute D c) = Some (Aborted (Name @ '' aborted'')) \<and>
   (\<exists>pre cmd err. trace (Execute D c) = pre @
                 [Logged System LDebug (Text ''dumping running processes''),
                  Logged System LDebug CollectAllProcesses,
                  Logged Execution LNotice (ErrorValue err)] \<and> Ran cmd \<in> set pre)"
proof -
  assume l: "launches D c" and x: "ctxErr D"
  from Execute_launches_ex[OF l] obtain c4 t where e: "Execute D c = executeRun D c4 t" by blast
  from executeRun_trace_aborted[OF x, of c4 t] obtain pre cmd err where
    "trace (executeRun D c4 t) = t @ pre @
                 [Logged System LDebug (Text ''dumping running processes''),
                  Logged System LDebug CollectAllProcesses,
                  Logged Execution LNotice (ErrorValue err)]" "Ran cmd \<in> set pre" by blast
  then have "trace (Execute D c) = (t @ pre) @
                 [Logged System LDebug (Text ''dumping running processes''),
                  Logged System LDebug CollectAllProcesses,
                  Logged Execution LNotice (ErrorValue err)] \<and> Ran cmd \<in> set (t @ pre)"
    using e by simp
  moreover have "result (Execute D c) = Some (Aborted (Name @ '' aborted''))"
    using e x executeRun_result[of D c4 t] by simp
  ultimately show ?thesis by blast
qed

theorem cancellation_returns_Aborted_witness:
  "launches sampleDeps sampleExec \<and> ctxErr sampleDeps \<and> ContinueOnError sampleExec
   \<and> result (Execute sampleDeps sampleExec) = Some (Aborted ''subprocess.exec aborted'')"
  using cancellation_returns_Aborted[OF sample_launches sample_ctxErr] sample_launches sample_ctxErr
  by (simp add: sampleExec_def Name_def)

text \<open>
  Claim C10. \<open>Execute\<close> returns an \<open>Aborted\<close> error exactly when it reaches the run and the
  caller's context is done once the run has returned. What the run reports (\<open>r\<close>: success,
  a failed launch, a failed exit) and the \<open>Background\<close> flag (\<open>b\<close>) do not enter.
\<close>

theorem Aborted_iff_context_done:
  "(\<exists>m. result (Execute (D\<lparr>cmdRun := r\<rparr>) (c\<lparr>Background := b\<rparr>)) = Some (Aborted m))
     \<longleftrightarrow> launches D c \<and> ctxErr D"
  using Aborted_iff[of "D\<lparr>cmdRun := r\<rparr>" "c\<lparr>Background := b\<rparr>"]
  by (simp add: launches_indep)

theorem Aborted_iff_context_done_witness:
  "launches sampleDeps sampleExec \<and> ctxErr sampleDeps
   \<and> (\<exists>m. result (Execute (sampleDeps\<lparr>cmdRun := \<lambda>cmd. None\<rparr>)
                     (sampleExec\<lparr>Background := True\<rparr>)) = Some (Aborted m))"
  using Aborted_iff_context_done[where D = sampleDeps and r = "\<lambda>cmd. None" and c = sampleExec and b = True] sample_launches sample_ctxErr
  by simp

end
